theory Spec2Isabelle
  imports Complex_Main "HOL-Library.AList"
begin

section \<open>BaseLearner: checkpoint I/O, logging and the augmentation pipeline\<close>

text \<open>
  A shallow embedding of \<^verbatim>\<open>back-end/www/base_learner.py\<close>. The class sits on
  top of a tensor framework and a logging library; the parts of those libraries
  that the class calls are modelled by the small functions of the next
  subsections, and the methods of the class are translated line by line on top
  of them.
\<close>

subsection \<open>Errors\<close>

datatype error =
    AttributeError
  | FileNotFoundError
  | RuntimeError
  | UnboundLocalError

subsection \<open>Models and their parameter mappings\<close>

text \<open>
  A parameter mapping (\<^verbatim>\<open>state_dict\<close>) is an ordered dictionary from parameter
  names to tensors. Tensors are only copied by the class, never computed with,
  so their type is left open. A model is a module of the framework: its own
  parameters by name, and its child modules by name. The mapping of a module
  lists its own parameters, then the mapping of every child with the name of the
  child and a dot put before each key.
\<close>

type_synonym 'v state_dict = "(string \<times> 'v) list"

datatype 'v model = Module "'v state_dict" "(string \<times> 'v model) list"

definition add_prefix :: "string \<Rightarrow> 'v state_dict \<Rightarrow> 'v state_dict" where
  "add_prefix p sd = map (\<lambda>(k, v). (p @ k, v)) sd"

definition under_prefix :: "string \<Rightarrow> 'v state_dict \<Rightarrow> 'v state_dict" where
  "under_prefix p sd =
     map (\<lambda>(k, v). (drop (length p) k, v)) (filter (\<lambda>(k, v). take (length p) k = p) sd)"

fun state_dict :: "'v model \<Rightarrow> 'v state_dict" where
  "state_dict (Module ps cs) =
     ps @ concat (map (\<lambda>(name, c). add_prefix (name @ ''.'') (state_dict c)) cs)"

text \<open>
  A single-device network with parameters only, and the parallel-execution
  wrapper, which has no parameter of its own and keeps the model it wraps as its
  child \<^verbatim>\<open>module\<close>.
\<close>

definition Net :: "'v state_dict \<Rightarrow> 'v model" where
  "Net ps = Module ps []"

definition DataParallel :: "'v model \<Rightarrow> 'v model" where
  "DataParallel m = Module [] [(''module'', m)]"

text \<open>
  Reading an attribute of a module by name looks among its parameters, then
  among its children, and raises when neither has the name. What is found is a
  tensor or a module; only a module has a \<^verbatim>\<open>state_dict\<close> method.
\<close>

datatype 'v attribute = Parameter 'v | Submodule "'v model"

fun getattr :: "'v model \<Rightarrow> string \<Rightarrow> error + 'v attribute" where
  "getattr (Module ps cs) name =
     (case map_of ps name of
        Some v \<Rightarrow> Inr (Parameter v)
      | None \<Rightarrow>
          (case map_of cs name of
             Some c \<Rightarrow> Inr (Submodule c)
           | None \<Rightarrow> Inl AttributeError))"

fun attribute_state_dict :: "'v attribute \<Rightarrow> error + 'v state_dict" where
  "attribute_state_dict (Parameter v) = Inl AttributeError"
| "attribute_state_dict (Submodule c) = Inr (state_dict c)"

text \<open>
  Copying a mapping into a model: every parameter takes the tensor stored under
  its full name; a child receives the entries under its name and a dot.
\<close>

definition assigned :: "'v state_dict \<Rightarrow> string \<times> 'v \<Rightarrow> string \<times> 'v" where
  "assigned sd kv = (fst kv, case map_of sd (fst kv) of Some v' \<Rightarrow> v' | None \<Rightarrow> snd kv)"

fun assign :: "'v model \<Rightarrow> 'v state_dict \<Rightarrow> 'v model" where
  "assign (Module ps cs) sd =
     Module (map (assigned sd) ps)
            (map (\<lambda>(name, c). (name, assign c (under_prefix (name @ ''.'') sd))) cs)"

text \<open>
  \<^verbatim>\<open>model.load_state_dict(sd)\<close> in its default strict mode: a name of the
  model that the mapping lacks is a missing key, a name of the mapping that the
  model lacks is an unexpected key, and either is a key mismatch and raises. The
  checks the framework makes on the tensors themselves (shape, type) are outside
  this model, and so is the state of the model object after a load that raised.
\<close>

definition load_state_dict :: "'v model \<Rightarrow> 'v state_dict \<Rightarrow> error + 'v model" where
  "load_state_dict m sd =
     (let missing_keys = filter (\<lambda>k. k \<notin> set (map fst sd)) (map fst (state_dict m));
          unexpected_keys = filter (\<lambda>k. k \<notin> set (map fst (state_dict m))) (map fst sd)
      in if missing_keys = [] \<and> unexpected_keys = [] then Inr (assign m sd)
         else Inl RuntimeError)"

subsection \<open>The logging library\<close>

text \<open>
  Handlers are objects, compared by identity: each carries the number it was
  created under. A logger has a level and a list of handlers. The registry of
  the library hands out one logger per name and creates it on first use with no
  level of its own and no handler, which a total function with that default
  models. A line that reaches a handler is recorded with the handler, the level
  name and the message; the time stamp of the format is not modelled.
\<close>

record handler =
  h_id :: nat
  h_path :: string
  h_max_bytes :: nat
  h_backup_count :: nat
  h_format :: string

record logger_obj =
  lg_level :: nat
  lg_handlers :: "handler list"

definition NOTSET :: nat where "NOTSET = 0"
definition INFO :: nat where "INFO = 20"
definition WARNING :: nat where "WARNING = 30"
definition ERROR :: nat where "ERROR = 40"

definition new_logger :: logger_obj where
  "new_logger = \<lparr>lg_level = NOTSET, lg_handlers = []\<rparr>"

subsection \<open>The world outside the learner\<close>

record 'v world =
  stdout :: "string list"
  files :: "string \<rightharpoonup> 'v state_dict"
  dirs :: "string set"
  loggers :: "string \<Rightarrow> logger_obj"
  next_handler :: nat
  log_output :: "(handler \<times> nat \<times> string) list"

definition print :: "string \<Rightarrow> 'v world \<Rightarrow> 'v world" where
  "print msg w = w\<lparr>stdout := stdout w @ [msg]\<rparr>"

text \<open>
  A logger with no level of its own takes the level of the root logger, which
  is WARNING unless the application changed it; ancestors between the two are
  not modelled.
\<close>

definition effective_level :: "logger_obj \<Rightarrow> nat" where
  "effective_level lg = (if lg_level lg = NOTSET then WARNING else lg_level lg)"

definition logger_log :: "string \<Rightarrow> nat \<Rightarrow> string \<Rightarrow> 'v world \<Rightarrow> 'v world" where
  "logger_log name lv msg w =
     (let lg = loggers w name in
      if effective_level lg \<le> lv
      then w\<lparr>log_output := log_output w @ map (\<lambda>h. (h, lv, msg)) (lg_handlers lg)\<rparr>
      else w)"

definition set_level :: "string \<Rightarrow> nat \<Rightarrow> 'v world \<Rightarrow> 'v world" where
  "set_level name lv w = w\<lparr>loggers := (loggers w)(name := (loggers w name)\<lparr>lg_level := lv\<rparr>)\<rparr>"

definition remove_handler :: "string \<Rightarrow> handler \<Rightarrow> 'v world \<Rightarrow> 'v world" where
  "remove_handler name h w =
     w\<lparr>loggers := (loggers w)(name :=
          (loggers w name)\<lparr>lg_handlers := remove1 h (lg_handlers (loggers w name))\<rparr>)\<rparr>"

definition add_handler :: "string \<Rightarrow> handler \<Rightarrow> 'v world \<Rightarrow> 'v world" where
  "add_handler name h w =
     (if h \<in> set (lg_handlers (loggers w name)) then w
      else w\<lparr>loggers := (loggers w)(name :=
          (loggers w name)\<lparr>lg_handlers := lg_handlers (loggers w name) @ [h]\<rparr>)\<rparr>)"

definition rotating_file_handler ::
    "string \<Rightarrow> nat \<Rightarrow> nat \<Rightarrow> 'v world \<Rightarrow> handler \<times> 'v world" where
  "rotating_file_handler path max_bytes backup_count w =
     (\<lparr>h_id = next_handler w, h_path = path, h_max_bytes = max_bytes,
       h_backup_count = backup_count, h_format = []\<rparr>,
      w\<lparr>next_handler := Suc (next_handler w)\<rparr>)"

subsection \<open>Files\<close>

definition torch_save :: "'v state_dict \<Rightarrow> string \<Rightarrow> 'v world \<Rightarrow> 'v world" where
  "torch_save sd path w = w\<lparr>files := (files w)(path \<mapsto> sd)\<rparr>"

definition torch_load :: "string \<Rightarrow> 'v world \<Rightarrow> error + 'v state_dict" where
  "torch_load path w = (case files w path of None \<Rightarrow> Inl FileNotFoundError | Some sd \<Rightarrow> Inr sd)"

definition dirname :: "string \<Rightarrow> string" where
  "dirname p = rev (tl (dropWhile (\<lambda>c. c \<noteq> CHR ''/'') (rev p)))"

text \<open>
  Modelled from the spec: \<^verbatim>\<open>util.check_and_create_dir\<close>, whose source is not
  part of the file under study. It ensures that the parent directory of the path
  exists, creating it if needed.
\<close>

definition check_and_create_dir :: "string \<Rightarrow> 'v world \<Rightarrow> 'v world" where
  "check_and_create_dir p w =
     (if dirname p = [] then w else w\<lparr>dirs := insert (dirname p) (dirs w)\<rparr>)"

subsection \<open>Strings\<close>

text \<open>
  \<^verbatim>\<open>s.replace(old, new)\<close>: every occurrence of \<^verbatim>\<open>old\<close>, found from left to
  right without overlap, is replaced. An empty \<^verbatim>\<open>old\<close> matches before every
  character and at the end.
\<close>

function str_replace :: "string \<Rightarrow> string \<Rightarrow> string \<Rightarrow> string" where
  "str_replace old new [] = (if old = [] then new else [])"
| "str_replace old new (c # cs) =
     (if old = [] then new @ c # str_replace old new cs
      else if take (length old) (c # cs) = old
           then new @ str_replace old new (drop (length old) (c # cs))
           else c # str_replace old new cs)"
  by pat_completeness auto
termination
  by (relation "measure (\<lambda>(old, new, s). length s)") auto

text \<open>
  \<^verbatim>\<open>old in s\<close>, and the same for an occurrence that starts after the first
  character of \<^verbatim>\<open>s\<close>.
\<close>

fun occurs :: "string \<Rightarrow> string \<Rightarrow> bool" where
  "occurs old [] = (old = [])"
| "occurs old (c # cs) = (take (length old) (c # cs) = old \<or> occurs old cs)"


subsection \<open>The learner\<close>

text \<open>
  The learner holds its logger (a reference to the logger the registry keeps
  under a name) and the acceleration flag. \<^verbatim>\<open>image_size\<close> is read by
  \<^verbatim>\<open>get_transform\<close> but never set by the class: a subclass has to set it, and
  reading it before that raises.
\<close>

record learner =
  logger :: "string option"
  use_cuda :: bool
  image_size :: "nat option"

text \<open>
  The constructor tests \<^verbatim>\<open>torch.cuda.is_available\<close>, the function object, and
  not the value of a call to it.
\<close>

datatype pyval = PyNone | PyBool bool | PyFunction "unit \<Rightarrow> bool"

fun truthy :: "pyval \<Rightarrow> bool" where
  "truthy PyNone = False"
| "truthy (PyBool b) = b"
| "truthy (PyFunction f) = True"

definition init :: "(unit \<Rightarrow> bool) \<Rightarrow> learner" where
  "init is_available =
     (let self = \<lparr>logger = None, use_cuda = False, image_size = None\<rparr> in
      if truthy (PyFunction is_available) then self\<lparr>use_cuda := True\<rparr>
      else self\<lparr>use_cuda := False\<rparr>)"

definition log :: "learner \<Rightarrow> string \<Rightarrow> string \<Rightarrow> 'v world \<Rightarrow> 'v world" where
  "log self msg lv w =
     (let w1 = print msg w in
      case logger self of
        None \<Rightarrow> w1
      | Some name \<Rightarrow>
          if lv = ''i'' then logger_log name INFO msg w1
          else if lv = ''w'' then logger_log name WARNING msg w1
          else if lv = ''e'' then logger_log name ERROR msg w1
          else w1)"

text \<open>
  The \<^verbatim>\<open>try\<close> of \<^verbatim>\<open>save\<close>: \<^verbatim>\<open>model.module.state_dict()\<close> when the
  model has an attribute \<^verbatim>\<open>module\<close> and that attribute has the method, the
  mapping of the model itself when either lookup raises.
\<close>

definition extract_state_dict :: "'v model \<Rightarrow> 'v state_dict" where
  "extract_state_dict m =
     (case (case getattr m ''module'' of
              Inl e \<Rightarrow> Inl e
            | Inr a \<Rightarrow> attribute_state_dict a) of
        Inr sd \<Rightarrow> sd
      | Inl e \<Rightarrow> state_dict m)"

definition save ::
    "learner \<Rightarrow> 'v model option \<Rightarrow> string option \<Rightarrow> 'v world \<Rightarrow> 'v world" where
  "save self model out_path w =
     (case (model, out_path) of
        (Some m, Some p) \<Rightarrow>
          let w1 = log self (''Save model weights to '' @ p) ''i'' w;
              sd = extract_state_dict m;
              w2 = check_and_create_dir p w1
          in torch_save sd p w2
      | _ \<Rightarrow> w)"

definition rename_keys :: "'v state_dict \<Rightarrow> 'v state_dict" where
  "rename_keys sd =
     fold (\<lambda>(k, v) new_sd. AList.update (str_replace ''module.'' [] k) v new_sd) sd []"

text \<open>
  The body of the \<^verbatim>\<open>try\<close> of \<^verbatim>\<open>load\<close>: read the file, then copy the
  mapping into the model; either step may raise.
\<close>

definition direct_load :: "'v model \<Rightarrow> string \<Rightarrow> 'v world \<Rightarrow> error + 'v model" where
  "direct_load m p w =
     (case torch_load p w of
        Inl e \<Rightarrow> Inl e
      | Inr sd \<Rightarrow> load_state_dict m sd)"

text \<open>
  \<^verbatim>\<open>load\<close> returns what became of the model, or the error that left the
  method, together with the world. The \<^verbatim>\<open>except\<close> clause is bare: it catches
  whatever the direct load raised.
\<close>

definition load ::
    "learner \<Rightarrow> 'v model option \<Rightarrow> string option \<Rightarrow> 'v world
       \<Rightarrow> (error + 'v model option) \<times> 'v world" where
  "load self model in_path w =
     (case (model, in_path) of
        (Some m, Some p) \<Rightarrow>
          let w1 = log self (''Load model weights from '' @ p) ''i'' w in
          (case direct_load m p w1 of
             Inr m' \<Rightarrow> (Inr (Some m'), w1)
           | Inl e \<Rightarrow>
               let w2 = log self ''Weights were from nn.DataParallel...'' ''i'' w1;
                   w3 = log self ''Remove 'module.' prefix from state_dict keys...'' ''i'' w2
               in (case torch_load p w3 of
                     Inl e' \<Rightarrow> (Inl e', w3)
                   | Inr state_dict' \<Rightarrow>
                       (case load_state_dict m (rename_keys state_dict') of
                          Inl e' \<Rightarrow> (Inl e', w3)
                        | Inr m' \<Rightarrow> (Inr (Some m'), w3))))
      | _ \<Rightarrow> (Inr model, w))"

subsection \<open>Stripping a leading prefix only\<close>

text \<open>
  What the specification describes for the fallback, to compare \<^const>\<open>rename_keys\<close>
  with: a key that starts with the prefix loses it, any other key is kept, and
  the new mapping is filled in the order of the old one.
\<close>

definition strip_leading_prefix :: "string \<Rightarrow> string \<Rightarrow> string" where
  "strip_leading_prefix old s = (if take (length old) s = old then drop (length old) s else s)"

definition strip_prefix_keys :: "'v state_dict \<Rightarrow> 'v state_dict" where
  "strip_prefix_keys sd =
     fold (\<lambda>(k, v) new_sd. AList.update (strip_leading_prefix ''module.'' k) v new_sd) sd []"

subsection \<open>The augmentation pipeline\<close>

text \<open>
  The steps are the constructors of \<^verbatim>\<open>video_transforms\<close> with the arguments
  the class passes; an argument that the class leaves to the default of the
  constructor is \<open>None\<close>. The decimal constants of the source are written as the
  fractions they denote.
\<close>

datatype transform =
    ColorJitter rat rat "rat option" "(rat \<times> rat) option"
  | RandomResizedCrop nat "rat \<times> rat" "rat \<times> rat"
  | RandomPerspective nat nat nat nat
  | RandomHorizontalFlip rat
  | RandomErasing rat "rat \<times> rat" "rat \<times> rat" string
  | Resize nat
  | Normalize "rat list" "rat list"

datatype compose = Compose "transform list"

definition get_image_size :: "learner \<Rightarrow> error + nat" where
  "get_image_size self = (case image_size self of None \<Rightarrow> Inl AttributeError | Some s \<Rightarrow> Inr s)"

definition get_transform ::
    "learner \<Rightarrow> string option \<Rightarrow> string option \<Rightarrow> error + compose option" where
  "get_transform self mode phase =
     (case (if mode = Some ''rgb''
            then Some ([255 / 2, 255 / 2, 255 / 2], [255 / 2, 255 / 2, 255 / 2])
            else if mode = Some ''flow''
            then Some ([255 / 2, 255 / 2], [255 / 2, 255 / 2])
            else None) of
        None \<Rightarrow> Inr None
      | Some (mean, std) \<Rightarrow>
          let nm = Normalize mean std in
          if phase = Some ''train'' then
            (case (if mode = Some ''rgb''
                   then Inr (ColorJitter (3 / 10) (3 / 10) (Some (3 / 10)) (Some (- 1 / 10, 1 / 10)))
                   else if mode = Some ''flow''
                   then Inr (ColorJitter (3 / 10) (3 / 10) None None)
                   else Inl UnboundLocalError) of
               Inl e \<Rightarrow> Inl e
             | Inr cj \<Rightarrow>
                 (case get_image_size self of
                    Inl e \<Rightarrow> Inl e
                  | Inr sz \<Rightarrow>
                      let rrc = RandomResizedCrop sz (9 / 10, 1) (3 / 4, 4 / 3);
                          rp = RandomPerspective 3 3 3 3;
                          rhf = RandomHorizontalFlip (1 / 2);
                          re = RandomErasing (1 / 2) (2 / 1000, 8 / 1000) (3 / 10, 33 / 10) ''random''
                      in Inr (Some (Compose [cj, rrc, rp, rhf, re, re, nm]))))
          else
            (case get_image_size self of
               Inl e \<Rightarrow> Inl e
             | Inr sz \<Rightarrow> Inr (Some (Compose [Resize sz, nm]))))"

subsection \<open>Creating the logger\<close>

definition create_logger ::
    "learner \<Rightarrow> string option \<Rightarrow> 'v world \<Rightarrow> learner \<times> 'v world" where
  "create_logger self log_path w =
     (case log_path of
        None \<Rightarrow> (self, w)
      | Some p \<Rightarrow>
          let w1 = check_and_create_dir p w;
              (h0, w2) = rotating_file_handler p 100000000 200 w1;
              handler = h0\<lparr>h_format := ''[%(asctime)s] %(levelname)s: %(message)s''\<rparr>;
              w3 = set_level p INFO w2;
              w4 = fold (\<lambda>hdlr. remove_handler p hdlr) (lg_handlers (loggers w3 p)) w3;
              w5 = add_handler p handler w4
          in (self\<lparr>logger := Some p\<rparr>, w5))"

subsection \<open>Calls on a learner\<close>

text \<open>
  The operations the class offers after construction, as values, so that a
  property of every later operation is a property of every list of calls. The
  abstract methods \<^verbatim>\<open>fit\<close> and \<^verbatim>\<open>predict\<close> have no body in the class.
\<close>

datatype 'v call =
    CallSave "'v model option" "string option"
  | CallLoad "'v model option" "string option"
  | CallLog string string
  | CallGetTransform "string option" "string option"
  | CallCreateLogger "string option"

fun exec :: "'v call \<Rightarrow> learner \<times> 'v world \<Rightarrow> learner \<times> 'v world" where
  "exec (CallSave model out_path) (self, w) = (self, save self model out_path w)"
| "exec (CallLoad model in_path) (self, w) = (self, snd (load self model in_path w))"
| "exec (CallLog msg lv) (self, w) = (self, log self msg lv w)"
| "exec (CallGetTransform mode phase) (self, w) = (self, w)"
| "exec (CallCreateLogger log_path) (self, w) = create_logger self log_path w"

subsection \<open>Repeated creation of the logger\<close>

fun repeat_create_logger ::
    "nat \<Rightarrow> string \<Rightarrow> learner \<times> 'v world \<Rightarrow> learner \<times> 'v world" where
  "repeat_create_logger 0 p s = s"
| "repeat_create_logger (Suc n) p s =
     (case repeat_create_logger n p s of (self, w) \<Rightarrow> create_logger self (Some p) w)"

text \<open>
  The level at which \<^verbatim>\<open>log\<close> hands a message to the logger, for the three
  tags it knows.
\<close>

definition levelno :: "string \<Rightarrow> nat" where
  "levelno lv = (if lv = ''i'' then INFO else if lv = ''w'' then WARNING else ERROR)"

subsection \<open>A world to start from\<close>

definition empty_world :: "'v world" where
  "empty_world =
     \<lparr>stdout = [], files = Map.empty, dirs = {}, loggers = (\<lambda>name. new_logger),
      next_handler = 0, log_output = []\<rparr>"

definition a_learner :: learner where
  "a_learner = \<lparr>logger = Some ''../log/Learner.log'', use_cuda = True, image_size = Some 224\<rparr>"

text \<open>
  The world after the learner created its logger, a checkpoint written from a
  wrapped model, and the single-device model it is loaded into.
\<close>

definition logged_world :: "'v world" where
  "logged_world = snd (create_logger a_learner (Some ''../log/Learner.log'') empty_world)"

definition wrapped_checkpoint :: "int state_dict" where
  "wrapped_checkpoint = [(''module.weight'', 7), (''module.bias'', 1)]"

definition wrapped_world :: "int world" where
  "wrapped_world = logged_world\<lparr>files := [''model.pt'' \<mapsto> wrapped_checkpoint]\<rparr>"

definition plain_net :: "int model" where
  "plain_net = Net [(''weight'', 0), (''bias'', 0)]"

definition wrapped_net :: "int model" where
  "wrapped_net = DataParallel (Net [(''weight'', 7), (''bias'', 1)])"

text \<open>
  A checkpoint written from a wrapped model that has a child named
  \<^verbatim>\<open>submodule\<close>, the single-device model of that construction, and a
  single-device model with a child named \<^verbatim>\<open>module\<close>.
\<close>

definition inner_checkpoint_world :: "int world" where
  "inner_checkpoint_world =
     logged_world\<lparr>files := [''model.pt'' \<mapsto> [(''module.submodule.weight'', 7)]]\<rparr>"

definition submodule_net :: "int model" where
  "submodule_net = Module [] [(''submodule'', Net [(''weight'', 0)])]"

definition module_child_net :: "int model" where
  "module_child_net =
     Module [] [(''module'', Net [(''weight'', 1)]), (''head'', Net [(''weight'', 2)])]"

section \<open>Properties\<close>

subsection \<open>The augmentation pipeline\<close>

text \<open>
  C4. For a supported modality (\<^verbatim>\<open>"rgb"\<close> or \<^verbatim>\<open>"flow"\<close>) and a learner whose
  target size is set, \<^verbatim>\<open>get_transform\<close> in phase \<^verbatim>\<open>"train"\<close> returns the
  composition of exactly seven steps in this order: the colour jitter of the
  modality, the random resized crop, the random perspective, the random
  horizontal flip, the random erasing, the same random erasing again, and the
  normalization. In any other phase, \<open>None\<close> included, it returns exactly the
  resize to the target size followed by the normalization.
\<close>

theorem get_transform_shape:
  assumes "mode = Some ''rgb'' \<or> mode = Some ''flow''"
    and "image_size self = Some sz"
  shows "(phase = Some ''train'' \<longrightarrow>
           get_transform self mode phase =
             Inr (Some (Compose
               [if mode = Some ''rgb''
                then ColorJitter (3 / 10) (3 / 10) (Some (3 / 10)) (Some (- 1 / 10, 1 / 10))
                else ColorJitter (3 / 10) (3 / 10) None None,
                RandomResizedCrop sz (9 / 10, 1) (3 / 4, 4 / 3),
                RandomPerspective 3 3 3 3,
                RandomHorizontalFlip (1 / 2),
                RandomErasing (1 / 2) (2 / 1000, 8 / 1000) (3 / 10, 33 / 10) ''random'',
                RandomErasing (1 / 2) (2 / 1000, 8 / 1000) (3 / 10, 33 / 10) ''random'',
                if mode = Some ''rgb''
                then Normalize [255 / 2, 255 / 2, 255 / 2] [255 / 2, 255 / 2, 255 / 2]
                else Normalize [255 / 2, 255 / 2] [255 / 2, 255 / 2]])))
       \<and> (phase \<noteq> Some ''train'' \<longrightarrow>
           get_transform self mode phase =
             Inr (Some (Compose
               [Resize sz,
                if mode = Some ''rgb''
                then Normalize [255 / 2, 255 / 2, 255 / 2] [255 / 2, 255 / 2, 255 / 2]
                else Normalize [255 / 2, 255 / 2] [255 / 2, 255 / 2]])))"
  using assms by (auto simp: get_transform_def get_image_size_def Let_def)

theorem get_transform_shape_witness:
  "image_size a_learner = Some 224
   \<and> get_transform a_learner (Some ''rgb'') (Some ''train'') =
     Inr (Some (Compose
       [ColorJitter (3 / 10) (3 / 10) (Some (3 / 10)) (Some (- 1 / 10, 1 / 10)),
        RandomResizedCrop 224 (9 / 10, 1) (3 / 4, 4 / 3),
        RandomPerspective 3 3 3 3,
        RandomHorizontalFlip (1 / 2),
        RandomErasing (1 / 2) (2 / 1000, 8 / 1000) (3 / 10, 33 / 10) ''random'',
        RandomErasing (1 / 2) (2 / 1000, 8 / 1000) (3 / 10, 33 / 10) ''random'',
        Normalize [255 / 2, 255 / 2, 255 / 2] [255 / 2, 255 / 2, 255 / 2]]))
   \<and> get_transform a_learner (Some ''flow'') None =
     Inr (Some (Compose [Resize 224, Normalize [255 / 2, 255 / 2] [255 / 2, 255 / 2]]))"
  using get_transform_shape [of "Some ''rgb''" a_learner 224 "Some ''train''"]
        get_transform_shape [of "Some ''flow''" a_learner 224 None]
  by (simp add: a_learner_def)

text \<open>
  C5. For a modality other than \<^verbatim>\<open>"rgb"\<close> and \<^verbatim>\<open>"flow"\<close>, \<^verbatim>\<open>get_transform\<close>
  returns \<open>None\<close> in every phase, \<^verbatim>\<open>"train"\<close> and \<open>None\<close> included, and
  whether or not the target size is set.
\<close>

theorem get_transform_unsupported:
  assumes "mode \<noteq> Some ''rgb''" and "mode \<noteq> Some ''flow''"
  shows "get_transform self mode phase = Inr None"
  using assms by (simp add: get_transform_def)

theorem get_transform_unsupported_witness:
  "Some ''gray'' \<noteq> Some ''rgb'' \<and> Some ''gray'' \<noteq> Some ''flow''
   \<and> get_transform a_learner (Some ''gray'') (Some ''train'') = Inr None
   \<and> get_transform (a_learner\<lparr>image_size := None\<rparr>) None None = Inr None"
  using get_transform_unsupported [of "Some ''gray''" a_learner "Some ''train''"]
        get_transform_unsupported [of None "a_learner\<lparr>image_size := None\<rparr>" None]
  by simp

text \<open>
  C6. The normalization step that \<^verbatim>\<open>get_transform\<close> builds is fixed for each
  modality, whatever the phase and the target size: for \<^verbatim>\<open>"rgb"\<close> it has three
  channels of mean and scale, for \<^verbatim>\<open>"flow"\<close> it has two, and the two steps
  differ. (They differ in the number of channels only: every channel of both has
  mean 127.5 and scale 127.5.)
\<close>

theorem normalization_constants:
  assumes "image_size self = Some sz" and "image_size self' = Some sz'"
  shows "\<exists>ts ts'.
           get_transform self (Some ''rgb'') phase = Inr (Some (Compose ts))
         \<and> get_transform self' (Some ''flow'') phase' = Inr (Some (Compose ts'))
         \<and> last ts = Normalize [255 / 2, 255 / 2, 255 / 2] [255 / 2, 255 / 2, 255 / 2]
         \<and> last ts' = Normalize [255 / 2, 255 / 2] [255 / 2, 255 / 2]
         \<and> last ts \<noteq> last ts'"
  using assms by (simp add: get_transform_def get_image_size_def Let_def)

theorem normalization_constants_witness:
  "image_size a_learner = Some 224
   \<and> (\<exists>ts ts'.
           get_transform a_learner (Some ''rgb'') (Some ''train'') = Inr (Some (Compose ts))
         \<and> get_transform a_learner (Some ''flow'') None = Inr (Some (Compose ts'))
         \<and> last ts = Normalize [255 / 2, 255 / 2, 255 / 2] [255 / 2, 255 / 2, 255 / 2]
         \<and> last ts' = Normalize [255 / 2, 255 / 2] [255 / 2, 255 / 2]
         \<and> last ts \<noteq> last ts')"
  using normalization_constants [of a_learner 224 a_learner 224 "Some ''train''" None]
  by (simp add: a_learner_def)

subsection \<open>Construction and the acceleration flag\<close>

lemma create_logger_use_cuda:
  "use_cuda (fst (create_logger self log_path w)) = use_cuda self"
  by (simp add: create_logger_def Let_def split: option.splits prod.splits)

lemma exec_use_cuda: "use_cuda (fst (exec c s)) = use_cuda (fst s)"
  by (cases c; cases s) (simp_all add: create_logger_use_cuda)

lemma fold_exec_use_cuda: "use_cuda (fst (fold exec cs s)) = use_cuda (fst s)"
  by (induction cs arbitrary: s) (simp_all add: exec_use_cuda)

text \<open>
  C8. After construction the flag \<^verbatim>\<open>use_cuda\<close> is true whatever the
  availability function would answer, and it is still true after any sequence of
  calls of the operations of the class: none of them evaluates it again.
\<close>

theorem use_cuda_always_true:
  "use_cuda (init is_available) = True
   \<and> use_cuda (fst (fold exec calls (init is_available, w))) = True"
  by (simp add: fold_exec_use_cuda) (simp add: init_def)

subsection \<open>Saving and loading without a model or without a path\<close>

text \<open>
  C3. When the model is \<open>None\<close> or the path is \<open>None\<close>, \<^verbatim>\<open>save\<close> and
  \<^verbatim>\<open>load\<close> do nothing: neither raises, the world (the files, the
  directories, the standard output, the loggers and what they wrote) is the one
  before the call, and \<^verbatim>\<open>load\<close> leaves the model as it was.
\<close>

theorem save_load_none_noop:
  assumes "model = None \<or> path = None"
  shows "save self model path w = w \<and> load self model path w = (Inr model, w)"
  using assms by (auto simp: save_def load_def split: option.splits)

theorem save_load_none_noop_witness:
  "save a_learner None (Some ''m.pt'') (empty_world :: nat world) = empty_world
   \<and> load a_learner (Some (Net [(''w'', 1)])) None (empty_world :: nat world)
       = (Inr (Some (Net [(''w'', 1)])), empty_world)"
  using save_load_none_noop [of None "Some ''m.pt''" a_learner "empty_world :: nat world"]
        save_load_none_noop [of "Some (Net [(''w'', 1::nat)])" None a_learner "empty_world :: nat world"]
  by simp

subsection \<open>Creating the logger again\<close>

lemma fold_remove1_self: "fold remove1 xs xs = []"
  by (induction xs) simp_all

lemma fold_remove_handler_loggers:
  "loggers (fold (\<lambda>hdlr. remove_handler p hdlr) hs w) =
     (loggers w)(p := (loggers w p)\<lparr>lg_handlers := fold remove1 hs (lg_handlers (loggers w p))\<rparr>)"
  by (induction hs arbitrary: w) (simp_all add: remove_handler_def)

lemma create_logger_once:
  "create_logger self (Some p) w = (self', w') \<Longrightarrow>
     logger self' = Some p
   \<and> lg_level (loggers w' p) = INFO
   \<and> lg_handlers (loggers w' p) =
        [\<lparr>h_id = next_handler w, h_path = p, h_max_bytes = 100000000, h_backup_count = 200,
          h_format = ''[%(asctime)s] %(levelname)s: %(message)s''\<rparr>]"
  by (auto simp: create_logger_def Let_def rotating_file_handler_def set_level_def
      add_handler_def fold_remove_handler_loggers fold_remove1_self check_and_create_dir_def)

lemma log_one_handler:
  assumes "logger self = Some p" and "lg_level (loggers w p) = INFO"
    and "lg_handlers (loggers w p) = [h]" and "lv \<in> {''i'', ''w'', ''e''}"
  shows "log_output (log self msg lv w) = log_output w @ [(h, levelno lv, msg)]"
  using assms
  by (auto simp: log_def print_def logger_log_def effective_level_def levelno_def Let_def
      INFO_def WARNING_def ERROR_def NOTSET_def)

text \<open>
  C9. After \<^verbatim>\<open>create_logger\<close> has been called once or more with the same
  path, from any learner and any state of the logging library, the logger named
  by the path has exactly one handler, which writes to that path, and one call
  of \<^verbatim>\<open>log\<close> with one of the three severity tags hands exactly one line to
  it.
\<close>

theorem create_logger_idempotent:
  assumes "0 < n" and "lv \<in> {''i'', ''w'', ''e''}"
  shows "\<exists>h. logger (fst (repeat_create_logger n p (self, w))) = Some p
     \<and> lg_handlers (loggers (snd (repeat_create_logger n p (self, w))) p) = [h]
     \<and> h_path h = p
     \<and> log_output (log (fst (repeat_create_logger n p (self, w))) msg lv
                        (snd (repeat_create_logger n p (self, w))))
         = log_output (snd (repeat_create_logger n p (self, w))) @ [(h, levelno lv, msg)]"
proof -
  from assms(1) obtain k where n: "n = Suc k" by (cases n) auto
  obtain self1 w1 where s1: "repeat_create_logger k p (self, w) = (self1, w1)"
    by (cases "repeat_create_logger k p (self, w)")
  obtain self2 w2 where s2: "create_logger self1 (Some p) w1 = (self2, w2)"
    by (cases "create_logger self1 (Some p) w1")
  have r: "repeat_create_logger n p (self, w) = (self2, w2)"
    using n s1 s2 by simp
  from create_logger_once [OF s2] log_one_handler [of self2 p w2 _ lv msg] assms(2)
  show ?thesis unfolding r by auto
qed

theorem create_logger_idempotent_witness:
  "0 < (2::nat) \<and> ''i'' \<in> {''i'', ''w'', ''e''}
   \<and> (\<exists>h. logger (fst (repeat_create_logger 2 ''../log/Learner.log''
                        (init (\<lambda>u. False), empty_world :: nat world))) = Some ''../log/Learner.log''
     \<and> lg_handlers (loggers (snd (repeat_create_logger 2 ''../log/Learner.log''
                        (init (\<lambda>u. False), empty_world :: nat world))) ''../log/Learner.log'') = [h]
     \<and> h_path h = ''../log/Learner.log''
     \<and> log_output (log (fst (repeat_create_logger 2 ''../log/Learner.log''
                        (init (\<lambda>u. False), empty_world :: nat world))) ''started'' ''i''
                        (snd (repeat_create_logger 2 ''../log/Learner.log''
                        (init (\<lambda>u. False), empty_world :: nat world))))
         = log_output (snd (repeat_create_logger 2 ''../log/Learner.log''
                        (init (\<lambda>u. False), empty_world :: nat world))) @ [(h, levelno ''i'', ''started'')])"
  using create_logger_idempotent [of 2 "''i''" "''../log/Learner.log''" "init (\<lambda>u. False)"
      "empty_world :: nat world" "''started''"]
  by simp


subsection \<open>The lines of the fallback\<close>

lemma files_log: "files (log self msg lv w) = files w"
  by (simp add: log_def print_def logger_log_def Let_def split: option.splits)

lemma direct_load_log: "direct_load m p (log self msg lv w) = direct_load m p w"
  by (simp add: direct_load_def torch_load_def files_log)

lemma stdout_log: "stdout (log self msg lv w) = stdout w @ [msg]"
  by (simp add: log_def print_def logger_log_def Let_def split: option.splits)

lemma loggers_log: "loggers (log self msg lv w) = loggers w"
  by (simp add: log_def print_def logger_log_def Let_def split: option.splits)

lemma log_output_log_info:
  "log_output (log self msg ''i'' w) =
     log_output w @
       (case logger self of
          None \<Rightarrow> []
        | Some name \<Rightarrow>
            if effective_level (loggers w name) \<le> INFO
            then map (\<lambda>h. (h, INFO, msg)) (lg_handlers (loggers w name))
            else [])"
  by (simp add: log_def print_def logger_log_def Let_def split: option.splits)

lemma load_fallback_world:
  assumes "direct_load m p w = Inl e"
  shows "snd (load self (Some m) (Some p) w) =
    log self ''Remove 'module.' prefix from state_dict keys...'' ''i''
      (log self ''Weights were from nn.DataParallel...'' ''i''
        (log self (''Load model weights from '' @ p) ''i'' w))"
  using assms
  by (simp add: load_def Let_def direct_load_log split: sum.splits)

text \<open>
  C7, as the code has it. Whenever the direct load fails, \<^verbatim>\<open>load\<close> prints,
  after the line that announces the load, exactly two lines before it retries,
  and a configured logger for which INFO is enabled receives the same lines at
  level INFO, the default of \<^verbatim>\<open>log\<close>; nothing is logged at level WARNING.
\<close>

theorem load_fallback_log_lines:
  assumes "direct_load m p w = Inl e"
  shows "stdout (snd (load self (Some m) (Some p) w)) =
           stdout w @ [''Load model weights from '' @ p,
                       ''Weights were from nn.DataParallel...'',
                       ''Remove 'module.' prefix from state_dict keys...'']
       \<and> log_output (snd (load self (Some m) (Some p) w)) =
           log_output w @
             (case logger self of
                None \<Rightarrow> []
              | Some name \<Rightarrow>
                  if effective_level (loggers w name) \<le> INFO
                  then concat (map (\<lambda>msg. map (\<lambda>h. (h, INFO, msg)) (lg_handlers (loggers w name)))
                         [''Load model weights from '' @ p,
                          ''Weights were from nn.DataParallel...'',
                          ''Remove 'module.' prefix from state_dict keys...''])
                  else [])"
  by (simp add: load_fallback_world [OF assms] stdout_log log_output_log_info loggers_log
      split: option.splits)

subsection \<open>Occurrences and replacement\<close>

lemma take_eq_iff_append: "take (length old) s = old \<longleftrightarrow> (\<exists>v. s = old @ v)"
  by (metis append_eq_conv_conj)

lemma occurs_iff: "occurs old s \<longleftrightarrow> (\<exists>u v. s = u @ old @ v)"
proof (induction s)
  case Nil
  then show ?case by auto
next
  case (Cons c cs)
  show ?case
  proof
    assume "occurs old (c # cs)"
    then consider "take (length old) (c # cs) = old" | "occurs old cs" by auto
    then show "\<exists>u v. c # cs = u @ old @ v"
    proof cases
      case 1
      then obtain v where "c # cs = old @ v" using take_eq_iff_append by blast
      then have "c # cs = [] @ old @ v" by simp
      then show ?thesis by blast
    next
      case 2
      then obtain u v where "cs = u @ old @ v" using Cons.IH by blast
      then have "c # cs = (c # u) @ old @ v" by simp
      then show ?thesis by blast
    qed
  next
    assume "\<exists>u v. c # cs = u @ old @ v"
    then obtain u v where e: "c # cs = u @ old @ v" by blast
    show "occurs old (c # cs)"
    proof (cases u)
      case Nil
      then have "take (length old) (c # cs) = old" using e take_eq_iff_append by auto
      then show ?thesis by simp
    next
      case (Cons a u')
      then have "cs = u' @ old @ v" using e by simp
      then show ?thesis using Cons.IH by auto
    qed
  qed
qed



lemma str_replace_match:
  assumes "old \<noteq> []"
  shows "str_replace old new (old @ v) = new @ str_replace old new v"
proof -
  from assms obtain a old' where o: "old = a # old'" by (cases old) auto
  have "str_replace old new (a # (old' @ v)) =
      new @ str_replace old new (drop (length old) (a # (old' @ v)))"
    using o by (subst str_replace.simps(2)) simp
  then show ?thesis using o by simp
qed

lemma str_replace_nomatch:
  assumes "old \<noteq> []" and "take (length old) (c # cs) \<noteq> old"
  shows "str_replace old new (c # cs) = c # str_replace old new cs"
  using assms by (subst str_replace.simps(2)) simp



lemma str_replace_no_occurrence:
  assumes "old \<noteq> []" and "\<not> occurs old s"
  shows "str_replace old new s = s"
  using assms(2)
proof (induction s)
  case Nil
  then show ?case using assms(1) by simp
next
  case (Cons c cs)
  then have "take (length old) (c # cs) \<noteq> old" and "\<not> occurs old cs" by auto
  then show ?case using Cons.IH str_replace_nomatch [OF assms(1), of c cs new] by simp
qed






subsection \<open>Every occurrence of the prefix is removed\<close>

lemma load_state_dict_eq:
  "load_state_dict m sd =
     (if set (map fst sd) = set (map fst (state_dict m)) then Inr (assign m sd)
      else Inl RuntimeError)"
  by (auto simp: load_state_dict_def Let_def filter_empty_conv)




lemma update_fresh: "k \<notin> fst ` set acc \<Longrightarrow> AList.update k v acc = acc @ [(k, v)]"
  by (induction acc) auto

lemma fold_update_fresh:
  assumes "distinct (map (\<lambda>kv. f (fst kv)) xs)"
    and "(\<lambda>kv. f (fst kv)) ` set xs \<inter> fst ` set acc = {}"
  shows "fold (\<lambda>(k, v) new_sd. AList.update (f k) v new_sd) xs acc =
           acc @ map (\<lambda>(k, v). (f k, v)) xs"
  using assms
proof (induction xs arbitrary: acc)
  case Nil
  then show ?case by simp
next
  case (Cons kv xs)
  obtain k v where kv: "kv = (k, v)" by (cases kv)
  have fresh: "f k \<notin> fst ` set acc" using Cons.prems(2) kv by auto
  have d: "distinct (map (\<lambda>kv. f (fst kv)) xs)" using Cons.prems(1) by simp
  have "(\<lambda>kv. f (fst kv)) ` set xs \<inter> fst ` set (acc @ [(f k, v)]) = {}"
    using Cons.prems kv by auto
  from Cons.IH [OF d this] show ?case
    using kv update_fresh [OF fresh] by simp
qed



subsection \<open>The severity of the lines of the fallback\<close>

text \<open>
  A checkpoint written from a wrapped model is loaded into a single-device
  model by a learner whose logger is configured: the direct load raises, and the
  three lines that reach the logger, the two of the fallback among them, have
  level INFO, which is not WARNING.
\<close>

theorem load_fallback_warning_counterexample:
  "direct_load plain_net ''model.pt'' wrapped_world = Inl RuntimeError
   \<and> map snd (log_output (snd (load a_learner (Some plain_net) (Some ''model.pt'') wrapped_world))) =
       [(INFO, ''Load model weights from model.pt''),
        (INFO, ''Weights were from nn.DataParallel...''),
        (INFO, ''Remove 'module.' prefix from state_dict keys...'')]
   \<and> INFO \<noteq> WARNING"
  by (simp add: direct_load_def torch_load_def load_state_dict_def plain_net_def Net_def
      wrapped_world_def wrapped_checkpoint_def logged_world_def a_learner_def empty_world_def
      new_logger_def create_logger_def rotating_file_handler_def set_level_def add_handler_def
      check_and_create_dir_def dirname_def load_def log_def print_def logger_log_def
      effective_level_def INFO_def WARNING_def NOTSET_def rename_keys_def Let_def add_prefix_def)

theorem load_fallback_log_lines_witness:
  "direct_load plain_net ''model.pt'' wrapped_world = Inl RuntimeError
   \<and> stdout (snd (load a_learner (Some plain_net) (Some ''model.pt'') wrapped_world)) =
       [''Load model weights from model.pt'',
        ''Weights were from nn.DataParallel...'',
        ''Remove 'module.' prefix from state_dict keys...'']"
proof -
  have h: "direct_load plain_net ''model.pt'' wrapped_world = Inl RuntimeError"
    by (simp add: direct_load_def torch_load_def load_state_dict_def plain_net_def Net_def
        wrapped_world_def wrapped_checkpoint_def)
  have "stdout wrapped_world = []"
    by (simp add: wrapped_world_def logged_world_def create_logger_def Let_def
        rotating_file_handler_def set_level_def add_handler_def check_and_create_dir_def
        empty_world_def new_logger_def dirname_def)
  with load_fallback_log_lines [OF h, of a_learner] h show ?thesis by simp
qed

subsection \<open>Copying a mapping into a model\<close>

lemma state_dict_Net: "state_dict (Net ps) = ps"
  by (simp add: Net_def)

lemma state_dict_DataParallel: "state_dict (DataParallel m) = add_prefix ''module.'' (state_dict m)"
  by (simp add: DataParallel_def)

lemma map_of_under_prefix: "map_of (under_prefix p sd) k = map_of sd (p @ k)"
proof (induction sd)
  case Nil
  then show ?case by (simp add: under_prefix_def)
next
  case (Cons kv sd)
  obtain k' v where kv: "kv = (k', v)" by (cases kv)
  have u: "under_prefix p (kv # sd) =
      (if take (length p) k' = p then (drop (length p) k', v) # under_prefix p sd
       else under_prefix p sd)"
    using kv by (simp add: under_prefix_def)
  show ?case
  proof (cases "take (length p) k' = p")
    case True
    then have "k' = p @ drop (length p) k'" by (metis append_take_drop_id)
    then have "(drop (length p) k' = k) = (k' = p @ k)" by (metis append_eq_conv_conj)
    then show ?thesis using u True Cons.IH kv by auto
  next
    case False
    then have "k' \<noteq> p @ k" by auto
    then show ?thesis using u False Cons.IH kv by simp
  qed
qed

lemma add_prefix_assigned:
  "add_prefix p (map (assigned (under_prefix p sd)) xs) = map (assigned sd) (add_prefix p xs)"
  by (induction xs)
    (auto simp: add_prefix_def assigned_def map_of_under_prefix case_prod_unfold
      split: option.splits)

lemma state_dict_assign: "state_dict (assign m sd) = map (assigned sd) (state_dict m)"
proof (induction m arbitrary: sd)
  case (Module ps cs)
  have c: "add_prefix (fst nc @ ''.'') (state_dict (assign (snd nc) (under_prefix (fst nc @ ''.'') sd)))
      = map (assigned sd) (add_prefix (fst nc @ ''.'') (state_dict (snd nc)))"
    if "nc \<in> set cs" for nc
  proof -
    have "snd nc \<in> Basic_BNFs.snds nc" by (cases nc) simp
    from Module [OF that this] show ?thesis by (simp add: add_prefix_assigned)
  qed
  have "concat (map (\<lambda>nc. add_prefix (fst nc @ ''.'')
            (state_dict (assign (snd nc) (under_prefix (fst nc @ ''.'') sd)))) cs)
      = concat (map (\<lambda>nc. map (assigned sd) (add_prefix (fst nc @ ''.'') (state_dict (snd nc)))) cs)"
    using c by (auto intro!: arg_cong [where f = concat])
  then show ?case
    by (simp add: case_prod_unfold comp_def map_concat)
qed

lemma keys_assign: "map fst (state_dict (assign m sd)) = map fst (state_dict m)"
  by (simp add: state_dict_assign assigned_def comp_def)

lemma map_of_map_assigned:
  "map_of (map (assigned sd) xs) k =
     (case map_of xs k of None \<Rightarrow> None
      | Some v \<Rightarrow> Some (case map_of sd k of Some v' \<Rightarrow> v' | None \<Rightarrow> v))"
  by (induction xs) (auto simp: assigned_def)

lemma map_of_assign:
  assumes "set (map fst sd) = set (map fst (state_dict m))"
  shows "map_of (state_dict (assign m sd)) = map_of sd"
proof
  fix k
  show "map_of (state_dict (assign m sd)) k = map_of sd k"
  proof (cases "map_of (state_dict m) k")
    case None
    then have "k \<notin> set (map fst sd)" using assms by (simp add: map_of_eq_None_iff)
    then have "map_of sd k = None" by (simp add: map_of_eq_None_iff)
    then show ?thesis using None by (simp add: state_dict_assign map_of_map_assigned)
  next
    case (Some v)
    then have "k \<in> set (map fst sd)"
      using assms by (metis map_of_eq_None_iff option.distinct(1) set_map)
    then obtain v' where "map_of sd k = Some v'"
      by (metis map_of_eq_None_iff not_Some_eq set_map)
    then show ?thesis using Some by (simp add: state_dict_assign map_of_map_assigned)
  qed
qed

lemma files_check_and_create_dir: "files (check_and_create_dir p w) = files w"
  by (simp add: check_and_create_dir_def)

lemma files_save:
  "files (save self (Some m) (Some p) w) = (files w)(p \<mapsto> extract_state_dict m)"
  by (simp add: save_def Let_def torch_save_def files_check_and_create_dir files_log)

lemma load_of_saved:
  assumes "files w p = Some sd" and "set (map fst (state_dict m')) = set (map fst sd)"
  shows "fst (load self (Some m') (Some p) w) = Inr (Some (assign m' sd))"
proof -
  have "direct_load m' p w = Inr (assign m' sd)"
    using assms by (simp add: direct_load_def torch_load_def load_state_dict_eq)
  then show ?thesis by (simp add: load_def Let_def direct_load_log)
qed

subsection \<open>Saving, then loading\<close>

lemma extract_state_dict_plain:
  assumes "\<forall>c. getattr m ''module'' \<noteq> Inr (Submodule c)"
  shows "extract_state_dict m = state_dict m"
proof (cases "getattr m ''module''")
  case (Inl e)
  then show ?thesis by (simp add: extract_state_dict_def)
next
  case (Inr a)
  with assms obtain v where "a = Parameter v" by (cases a) auto
  with Inr show ?thesis by (simp add: extract_state_dict_def)
qed

lemma extract_state_dict_submodule:
  "getattr m ''module'' = Inr (Submodule c) \<Longrightarrow> extract_state_dict m = state_dict c"
  by (simp add: extract_state_dict_def)

lemma map_assigned_cong:
  "(\<And>kv. kv \<in> set ys \<Longrightarrow> map_of sd (fst kv) = map_of sd' (fst kv)) \<Longrightarrow>
     map (assigned sd) ys = map (assigned sd') ys"
  by (induction ys) (auto simp: assigned_def)

lemma map_assigned_self:
  assumes "distinct (map fst xs)" and "map fst ys = map fst xs"
  shows "map (assigned xs) ys = xs"
  using assms
proof (induction xs arbitrary: ys)
  case Nil
  then show ?case by simp
next
  case (Cons x xs)
  from Cons.prems(2) obtain y ys' where ys: "ys = y # ys'" by (cases ys) auto
  with Cons.prems have k: "fst y = fst x" and ks: "map fst ys' = map fst xs" by auto
  have nk: "fst x \<notin> set (map fst xs)" and d: "distinct (map fst xs)"
    using Cons.prems(1) by auto
  have "map (assigned (x # xs)) ys' = map (assigned xs) ys'"
  proof (rule map_assigned_cong)
    fix kv assume "kv \<in> set ys'"
    then have "fst kv \<in> set (map fst ys')" by simp
    then have "fst kv \<in> set (map fst xs)" unfolding ks .
    then have "fst kv \<noteq> fst x" using nk by metis
    then show "map_of (x # xs) (fst kv) = map_of xs (fst kv)" by (cases x) auto
  qed
  also have "\<dots> = xs" by (rule Cons.IH [OF d ks])
  finally have "map (assigned (x # xs)) ys' = xs" .
  moreover have "assigned (x # xs) y = x" using k by (cases x) (simp add: assigned_def)
  ultimately show ?case using ys by simp
qed

text \<open>
  C1, as the code has it. The model that is saved has no child module named
  \<^verbatim>\<open>module\<close>, so it is not a parallel wrapper, and the file is loaded into a
  model with the same parameter names. Then \<^verbatim>\<open>save\<close> writes the mapping of
  the model itself, \<^verbatim>\<open>load\<close> succeeds, and the mapping of the loaded model is
  the mapping of the saved model: every name has the tensor it had in the saved
  model. When the two models list the same names in the same order, none twice,
  the two mappings are equal entry by entry.
\<close>

theorem save_load_roundtrip:
  assumes "\<forall>c. getattr m ''module'' \<noteq> Inr (Submodule c)"
    and "set (map fst (state_dict m')) = set (map fst (state_dict m))"
  shows "files (save self (Some m) (Some p) w) p = Some (state_dict m)
       \<and> (\<exists>m''. fst (load self' (Some m') (Some p) (save self (Some m) (Some p) w)) = Inr (Some m'')
            \<and> map_of (state_dict m'') = map_of (state_dict m)
            \<and> map fst (state_dict m'') = map fst (state_dict m')
            \<and> (distinct (map fst (state_dict m))
                  \<and> map fst (state_dict m') = map fst (state_dict m)
                \<longrightarrow> state_dict m'' = state_dict m))"
proof -
  let ?w = "save self (Some m) (Some p) w"
  have f: "files ?w p = Some (state_dict m)"
    by (simp add: files_save extract_state_dict_plain [OF assms(1)])
  have l: "fst (load self' (Some m') (Some p) ?w) = Inr (Some (assign m' (state_dict m)))"
    by (rule load_of_saved [OF f assms(2)])
  have a: "map_of (state_dict (assign m' (state_dict m))) = map_of (state_dict m)"
    using assms(2) by (intro map_of_assign) simp
  have b: "state_dict (assign m' (state_dict m)) = state_dict m"
    if "distinct (map fst (state_dict m))" and "map fst (state_dict m') = map fst (state_dict m)"
    unfolding state_dict_assign using that by (rule map_assigned_self)
  from f l a b keys_assign [of m' "state_dict m"] show ?thesis by blast
qed

theorem save_load_roundtrip_witness:
  "(\<forall>c. getattr (Net [(''weight'', 7 :: int), (''bias'', 1)]) ''module'' \<noteq> Inr (Submodule c))
   \<and> set (map fst (state_dict plain_net))
       = set (map fst (state_dict (Net [(''weight'', 7 :: int), (''bias'', 1)])))
   \<and> files (save a_learner (Some (Net [(''weight'', 7 :: int), (''bias'', 1)])) (Some ''model.pt'')
         logged_world) ''model.pt'' = Some [(''weight'', 7), (''bias'', 1)]
   \<and> fst (load a_learner (Some plain_net) (Some ''model.pt'')
         (save a_learner (Some (Net [(''weight'', 7 :: int), (''bias'', 1)])) (Some ''model.pt'')
           logged_world)) = Inr (Some (Net [(''weight'', 7), (''bias'', 1)]))"
proof -
  let ?m = "Net [(''weight'', 7 :: int), (''bias'', 1)]"
  have h1: "\<forall>c. getattr ?m ''module'' \<noteq> Inr (Submodule c)" by (simp add: Net_def)
  have h2: "set (map fst (state_dict plain_net)) = set (map fst (state_dict ?m))"
    by (simp add: plain_net_def state_dict_Net)
  have h3: "distinct (map fst (state_dict ?m))
      \<and> map fst (state_dict plain_net) = map fst (state_dict ?m)"
    by (simp add: plain_net_def state_dict_Net)
  from save_load_roundtrip [OF h1 h2, of a_learner "''model.pt''" logged_world a_learner] h3
  obtain m'' where f: "files (save a_learner (Some ?m) (Some ''model.pt'') logged_world) ''model.pt''
        = Some (state_dict ?m)"
    and l: "fst (load a_learner (Some plain_net) (Some ''model.pt'')
        (save a_learner (Some ?m) (Some ''model.pt'') logged_world)) = Inr (Some m'')"
    and s: "state_dict m'' = state_dict ?m"
    and k: "map fst (state_dict m'') = map fst (state_dict plain_net)" by blast
  have "fst (load a_learner (Some plain_net) (Some ''model.pt'')
        (save a_learner (Some ?m) (Some ''model.pt'') logged_world))
      = Inr (Some (assign plain_net (state_dict ?m)))"
    by (rule load_of_saved [OF f h2])
  then have "fst (load a_learner (Some plain_net) (Some ''model.pt'')
        (save a_learner (Some ?m) (Some ''model.pt'') logged_world)) = Inr (Some ?m)"
    by (simp add: plain_net_def Net_def assigned_def)
  with h1 h2 f show ?thesis by (simp add: state_dict_Net)
qed

text \<open>
  A wrapped model is saved and the file is loaded into a fresh model of the same
  construction, so with the same parameter names. \<^verbatim>\<open>save\<close> wrote the names
  of the wrapped model, without the prefix; the names of the target carry it;
  the fallback only removes prefixes; the load raises.
\<close>

theorem save_load_roundtrip_counterexample:
  "map fst (state_dict (DataParallel plain_net)) = map fst (state_dict wrapped_net)
   \<and> files (save a_learner (Some wrapped_net) (Some ''model.pt'') logged_world) ''model.pt''
       = Some [(''weight'', 7), (''bias'', 1)]
   \<and> fst (load a_learner (Some (DataParallel plain_net)) (Some ''model.pt'')
            (save a_learner (Some wrapped_net) (Some ''model.pt'') logged_world))
       = Inl RuntimeError"
  by (simp add: load_def Let_def direct_load_log direct_load_def torch_load_def files_save
      files_log load_state_dict_def wrapped_net_def plain_net_def extract_state_dict_def
      add_prefix_def rename_keys_def DataParallel_def Net_def)

text \<open>
  What \<^verbatim>\<open>save\<close> writes for a model that has a child module named
  \<^verbatim>\<open>module\<close> is the mapping of that child, and it loads into a model with the
  names of the child. A single-device model with such a child among others is
  saved in part only, and does not load into a model of its own construction.
\<close>

lemma save_wrapped_load_plain:
  assumes "getattr m ''module'' = Inr (Submodule c)"
    and "set (map fst (state_dict m')) = set (map fst (state_dict c))"
  shows "files (save self (Some m) (Some p) w) p = Some (state_dict c)
       \<and> (\<exists>m''. fst (load self' (Some m') (Some p) (save self (Some m) (Some p) w)) = Inr (Some m'')
            \<and> map_of (state_dict m'') = map_of (state_dict c))"
proof -
  let ?w = "save self (Some m) (Some p) w"
  have f: "files ?w p = Some (state_dict c)"
    by (simp add: files_save extract_state_dict_submodule [OF assms(1)])
  have "fst (load self' (Some m') (Some p) ?w) = Inr (Some (assign m' (state_dict c)))"
    by (rule load_of_saved [OF f assms(2)])
  moreover have "map_of (state_dict (assign m' (state_dict c))) = map_of (state_dict c)"
    using assms(2) by (intro map_of_assign) simp
  ultimately show ?thesis using f by blast
qed

lemma save_module_child_raises:
  "state_dict module_child_net = [(''module.weight'', 1), (''head.weight'', 2)]
   \<and> files (save a_learner (Some module_child_net) (Some ''model.pt'') logged_world) ''model.pt''
       = Some [(''weight'', 1)]
   \<and> fst (load a_learner (Some module_child_net) (Some ''model.pt'')
            (save a_learner (Some module_child_net) (Some ''model.pt'') logged_world))
       = Inl RuntimeError"
  by (simp add: load_def Let_def direct_load_log direct_load_def torch_load_def files_save
      files_log load_state_dict_def module_child_net_def extract_state_dict_def
      add_prefix_def rename_keys_def Net_def)

subsection \<open>Loading a checkpoint written from a wrapped model\<close>

text \<open>
  C2 at a checkpoint whose key contains \<^verbatim>\<open>module.\<close> a second time. The
  wrapped model has a child named \<^verbatim>\<open>submodule\<close>, so the key of its checkpoint
  carries the prefix; the single-device model of the same construction has the
  key without the prefix. The direct load raises; the fallback, whose log line
  says that it removes the prefix, removes both occurrences, where stripping the
  prefix would give the name of the model; the retry raises.
\<close>

theorem load_inner_module_key_raises:
  "state_dict (DataParallel (Module [] [(''submodule'', Net [(''weight'', 7 :: int)])]))
     = [(''module.submodule.weight'', 7)]
   \<and> state_dict submodule_net = [(''submodule.weight'', 0)]
   \<and> files inner_checkpoint_world ''model.pt'' = Some [(''module.submodule.weight'', 7)]
   \<and> direct_load submodule_net ''model.pt'' inner_checkpoint_world = Inl RuntimeError
   \<and> rename_keys [(''module.submodule.weight'', 7 :: int)] = [(''subweight'', 7)]
   \<and> strip_prefix_keys [(''module.submodule.weight'', 7 :: int)] = [(''submodule.weight'', 7)]
   \<and> fst (load a_learner (Some submodule_net) (Some ''model.pt'') inner_checkpoint_world)
       = Inl RuntimeError"
  by (simp add: rename_keys_def strip_prefix_keys_def strip_leading_prefix_def load_def Let_def
      direct_load_log direct_load_def torch_load_def files_log load_state_dict_def
      inner_checkpoint_world_def submodule_net_def DataParallel_def Net_def add_prefix_def)

lemma keyset_add_prefix: "set (map fst (add_prefix p sd)) = (@) p ` set (map fst sd)"
  by (auto simp: add_prefix_def case_prod_unfold image_iff)

lemma rename_keys_add_prefix:
  assumes "distinct (map fst orig)"
    and "\<forall>k \<in> set (map fst orig). \<not> occurs ''module.'' k"
  shows "rename_keys (add_prefix ''module.'' orig) = orig"
proof -
  let ?f = "str_replace ''module.'' []"
  have ne: "''module.'' \<noteq> []" by simp
  have f: "?f (''module.'' @ k) = k" if "k \<in> set (map fst orig)" for k
  proof -
    from that assms(2) have no: "\<not> occurs ''module.'' k" by blast
    show ?thesis
      using str_replace_match [OF ne, of "[]" k] str_replace_no_occurrence [OF ne no, of "[]"]
      by simp
  qed
  have g: "?f (''module.'' @ fst kv) = fst kv" if "kv \<in> set orig" for kv
    using that f [of "fst kv"] by auto
  have m: "map (\<lambda>kv. ?f (fst kv)) (add_prefix ''module.'' orig) = map fst orig"
    unfolding add_prefix_def map_map comp_def case_prod_unfold fst_conv
    by (rule map_cong [OF refl]) (rule g)
  have m2: "map (\<lambda>(k, v). (?f k, v)) (add_prefix ''module.'' orig) = orig"
    unfolding add_prefix_def map_map comp_def case_prod_unfold fst_conv snd_conv
    by (rule map_idI) (simp only: g prod.collapse)
  have "fold (\<lambda>(k, v) new_sd. AList.update (?f k) v new_sd) (add_prefix ''module.'' orig) [] =
      [] @ map (\<lambda>(k, v). (?f k, v)) (add_prefix ''module.'' orig)"
    by (rule fold_update_fresh) (simp_all add: m assms(1))
  then show ?thesis unfolding rename_keys_def using m2 by simp
qed

text \<open>
  Where no name contains \<^verbatim>\<open>module.\<close> a second time, the fallback gives back
  the names without the prefix and the retry succeeds.
\<close>

lemma load_prefixed_plain_names:
  assumes "files w p = Some (add_prefix ''module.'' orig)"
    and "orig \<noteq> []"
    and "distinct (map fst orig)"
    and "\<forall>k \<in> set (map fst orig). \<not> occurs ''module.'' k"
    and "set (map fst (state_dict m')) = set (map fst orig)"
  shows "direct_load m' p w = Inl RuntimeError
       \<and> rename_keys (add_prefix ''module.'' orig) = orig
       \<and> (\<exists>m''. fst (load self (Some m') (Some p) w) = Inr (Some m'')
              \<and> map_of (state_dict m'') = map_of orig
              \<and> map fst (state_dict m'') = map fst (state_dict m'))"
proof -
  let ?ckpt = "add_prefix ''module.'' orig"
  from assms(2) obtain k where k: "k \<in> set (map fst orig)" by (cases orig) auto
  have "occurs ''module.'' (''module.'' @ k)" unfolding occurs_iff by (metis append_Nil)
  then have "''module.'' @ k \<notin> set (map fst orig)" using assms(4) by blast
  moreover have "''module.'' @ k \<in> set (map fst ?ckpt)"
    unfolding keyset_add_prefix using k by blast
  ultimately have "set (map fst ?ckpt) \<noteq> set (map fst (state_dict m'))"
    using assms(5) by auto
  then have "load_state_dict m' ?ckpt = Inl RuntimeError"
    by (simp add: load_state_dict_eq)
  then have direct: "direct_load m' p w = Inl RuntimeError"
    using assms(1) by (simp add: direct_load_def torch_load_def)
  have rn: "rename_keys ?ckpt = orig" by (rule rename_keys_add_prefix [OF assms(3,4)])
  have "load_state_dict m' orig = Inr (assign m' orig)"
    using assms(5) by (simp add: load_state_dict_eq)
  then have "fst (load self (Some m') (Some p) w) = Inr (Some (assign m' orig))"
    using direct assms(1) rn
    by (simp add: load_def Let_def direct_load_log torch_load_def files_log)
  moreover have "map_of (state_dict (assign m' orig)) = map_of orig"
    using assms(5) by (intro map_of_assign) simp
  ultimately show ?thesis using direct rn keys_assign [of m' orig] by auto
qed

end
